theory Spec2Isabelle
  imports Complex_Main "HOL-Library.Multiset" "HOL-Library.Sublist"
    "HOL-Library.List_Lexorder" "HOL-Library.Char_ord"
begin

text \<open>
  The event handlers of the voice-agent front end as functions on explicit state: the two
  chat components (\<open>ChatInterface\<close> with the agent-invoke call, and its simulated
  variant), the voice page's \<open>handleConnect\<close>, the MCP catalog's \<open>loadData\<close>, the
  configuration form's secret fields and the test panel's \<open>handleTest\<close>; and the
  degradation policy of the session supervisor. An asynchronous handler is split at its
  \<open>await\<close>: one function for the part that runs at once, one for the part that runs when
  the awaited operation has settled, the outcome of that operation being an argument.
  A handler reads the state cells through the closure of the render that created it and
  writes them through the setters: it therefore takes two states, the one its render
  captured and the committed one it updates. Effects (requests, toasts, timers) are
  returned as a list.
\<close>

section \<open>Text\<close>

text \<open>
  Text is modelled as \<open>string\<close>: the UTF-8 bytes of a JavaScript string. The functions of
  the platform that the handlers call on text, \<open>String.prototype.trim\<close>,
  \<open>String.prototype.toLowerCase\<close>, \<open>String.prototype.localeCompare\<close> and \<open>JSON.parse\<close>,
  are parameters of the handlers, named \<open>trim\<close>, \<open>toLowerCase\<close>, \<open>localeCompare\<close> and
  \<open>JSON_parse\<close>: what is proved of a handler holds for the platform's functions whatever
  they do on text outside ASCII. \<open>includes\<close> (here \<open>includes_str\<close>) is the search for a
  contiguous occurrence; the handlers search for ASCII words only, and an ASCII word occurs
  in the bytes exactly where it occurs in the string. \<open>toString\<close> is the decimal numeral of
  a natural number (\<open>Date.now().toString()\<close>).
\<close>

fun startsWith :: "string \<Rightarrow> string \<Rightarrow> bool" where
  "startsWith s [] = True"
| "startsWith [] (p # ps) = False"
| "startsWith (c # cs) (p # ps) = (c = p \<and> startsWith cs ps)"

fun includes_str :: "string \<Rightarrow> string \<Rightarrow> bool" where
  "includes_str [] sub = (sub = [])"
| "includes_str (c # cs) sub = (startsWith (c # cs) sub \<or> includes_str cs sub)"

definition digitChar :: "nat \<Rightarrow> char" where
  "digitChar d = ''0123456789'' ! d"

function toString :: "nat \<Rightarrow> string" where
  "toString n = (if n < 10 then [digitChar n] else toString (n div 10) @ [digitChar (n mod 10)])"
  by pat_completeness auto
termination
  by (relation "measure id") auto

declare toString.simps [simp del]

text \<open>A value is truthy in a condition when it is neither absent nor the empty string.\<close>

fun truthy :: "string option \<Rightarrow> bool" where
  "truthy None = False"
| "truthy (Some s) = (s \<noteq> [])"

text \<open>\<open>a || d\<close> on an optional string: the first operand when truthy, else the default.\<close>

fun orElse :: "string option \<Rightarrow> string \<Rightarrow> string" where
  "orElse None d = d"
| "orElse (Some s) d = (if s = [] then d else s)"

text \<open>
  A thrown value, as the \<open>catch\<close> clauses distinguish them: a \<open>SyntaxError\<close>, another
  \<open>Error\<close> (both carry a message), or a value that is no \<open>Error\<close> at all.
\<close>

datatype thrown = SyntaxErr string | ErrorObj string | NonError

subsection \<open>Instances of the platform's text functions\<close>

text \<open>
  For concrete runs, \<open>trimUtf8\<close> is \<open>String.prototype.trim\<close> on the UTF-8 bytes of a
  well-formed string: it removes, at both ends, the white space and line terminators of
  ECMAScript, which are U+0009 to U+000D, U+0020, U+00A0, U+1680, U+2000 to U+200A,
  U+2028, U+2029, U+202F, U+205F, U+3000 and U+FEFF.
\<close>

definition whiteSpace :: "string list" where
  "whiteSpace =
     [[CHR 0x09], [CHR 0x0A], [CHR 0x0B], [CHR 0x0C], [CHR 0x0D], [CHR 0x20],
      [CHR 0xC2, CHR 0xA0],
      [CHR 0xE1, CHR 0x9A, CHR 0x80],
      [CHR 0xE2, CHR 0x80, CHR 0x80], [CHR 0xE2, CHR 0x80, CHR 0x81],
      [CHR 0xE2, CHR 0x80, CHR 0x82], [CHR 0xE2, CHR 0x80, CHR 0x83],
      [CHR 0xE2, CHR 0x80, CHR 0x84], [CHR 0xE2, CHR 0x80, CHR 0x85],
      [CHR 0xE2, CHR 0x80, CHR 0x86], [CHR 0xE2, CHR 0x80, CHR 0x87],
      [CHR 0xE2, CHR 0x80, CHR 0x88], [CHR 0xE2, CHR 0x80, CHR 0x89],
      [CHR 0xE2, CHR 0x80, CHR 0x8A],
      [CHR 0xE2, CHR 0x80, CHR 0xA8], [CHR 0xE2, CHR 0x80, CHR 0xA9],
      [CHR 0xE2, CHR 0x80, CHR 0xAF],
      [CHR 0xE2, CHR 0x81, CHR 0x9F],
      [CHR 0xE3, CHR 0x80, CHR 0x80],
      [CHR 0xEF, CHR 0xBB, CHR 0xBF]]"

text \<open>The length of the entry of the table that the text starts with, or 0.\<close>

fun leading :: "string list \<Rightarrow> string \<Rightarrow> nat" where
  "leading [] s = 0"
| "leading (w # ws) s = (if w \<noteq> [] \<and> startsWith s w then length w else leading ws s)"

function stripLeading :: "string list \<Rightarrow> string \<Rightarrow> string" where
  "stripLeading table s =
     (if leading table s = 0 then s else stripLeading table (drop (leading table s) s))"
  by pat_completeness auto
termination
proof (relation "measure (\<lambda>(table, s). length s)")
  show "wf (measure (\<lambda>(table, s). length s))"
    by simp
next
  fix table :: "string list" and s :: string
  assume pos: "leading table s \<noteq> 0"
  have "leading table [] = 0"
    by (induction table) (auto simp: neq_Nil_conv)
  with pos have "s \<noteq> []"
    by auto
  with pos show "((table, drop (leading table s) s), (table, s))
      \<in> measure (\<lambda>(table, s). length s)"
    by simp
qed

declare stripLeading.simps [simp del]

definition trimUtf8 :: "string \<Rightarrow> string" where
  "trimUtf8 s = rev (stripLeading (map rev whiteSpace) (rev (stripLeading whiteSpace s)))"

text \<open>
  For concrete runs, \<open>lowerUtf8\<close> is an instance of \<open>String.prototype.toLowerCase\<close>: the
  case map of the ASCII letters and of U+212A KELVIN SIGN, whose lower case is the ASCII
  \<open>k\<close>; other text is left as it is.
\<close>

definition lowerChar :: "char \<Rightarrow> char" where
  "lowerChar c =
     (case map_of (zip ''ABCDEFGHIJKLMNOPQRSTUVWXYZ'' ''abcdefghijklmnopqrstuvwxyz'') c of
        Some l \<Rightarrow> l
      | None \<Rightarrow> c)"

definition kelvinSign :: string where
  "kelvinSign = [CHR 0xE2, CHR 0x84, CHR 0xAA]"

fun lowerUtf8 :: "string \<Rightarrow> string" where
  "lowerUtf8 [] = []"
| "lowerUtf8 (c # cs) =
     (if startsWith (c # cs) kelvinSign then CHR ''k'' # lowerUtf8 (drop 2 cs)
      else lowerChar c # lowerUtf8 cs)"

text \<open>
  What is known of \<open>toLowerCase\<close> whatever the text: on ASCII text it is the case map of
  the ASCII letters.
\<close>

definition isAscii :: "char \<Rightarrow> bool" where
  "isAscii c = ((of_char c :: nat) < 128)"

definition asciiCaseMap :: "(string \<Rightarrow> string) \<Rightarrow> bool" where
  "asciiCaseMap toLowerCase =
     (\<forall>s. list_all isAscii s \<longrightarrow> toLowerCase s = map lowerChar s)"

section \<open>ChatInterface, the agent-invoke flow\<close>

datatype role = User | Assistant

text \<open>
  \<open>Message\<close>. The optional \<open>isTyping\<close> exists only in the simulated flow's interface; the
  agent-invoke flow never sets it (\<open>None\<close> is the absent property).
\<close>

record message =
  msg_id :: string
  content :: string
  msg_role :: role
  timestamp :: nat
  isTyping :: "bool option"

record agent =
  agent_id :: string
  agent_name :: string
  shortDescription :: string
  avatar :: "string option"
  elevenlabsVoiceId :: "string option"

record traits =
  traits_name :: string
  traits_shortDescription :: string
  identity :: string
  mission :: string
  interactionStyle :: string
  creativity :: nat
  empathy :: nat
  assertiveness :: nat
  verbosity :: nat
  formality :: nat
  confidence :: nat
  humor :: nat
  technicality :: nat
  safety :: nat

text \<open>The body posted to \<open>/api/v1/agent/invoke\<close>.\<close>

record invoke_request =
  user_input :: string
  session_id :: string
  tenant_id :: string
  voice_id :: "string option"
  tts_enabled :: bool
  model :: string
  req_agent_id :: string
  req_traits :: traits

record agent_invoke_response =
  success :: bool
  agent_response :: "string option"
  resp_error :: "string option"

text \<open>
  How the awaited \<open>api.post\<close> settles: it rejects with a thrown value, or resolves with
  the response body (\<open>None\<close> when the body is null or undefined, which \<open>data?.\<close> allows).
\<close>

datatype api_outcome = Rejected thrown | Resolved "agent_invoke_response option"

datatype effect =
    ApiPost string invoke_request
  | ConsoleError thrown
  | ToastError string
  | ToastInfo string
  | ToastSuccess string
  | SetTimeout nat
  | ClipboardWrite string
  | Fetch string
  | Connect string string
  | SetMicrophoneEnabled bool

text \<open>
  The component state: the five \<open>useState\<close> cells that both chat components have, and
  for the agent-invoke component the \<open>sessionId\<close> ref as well.
\<close>

record cells =
  messages :: "message list"
  inputMessage :: string
  isLoading :: bool
  isListening :: bool
  isSpeaking :: bool

record chat = cells +
  sessionId :: string

definition welcomeMessage :: "agent \<Rightarrow> nat \<Rightarrow> message" where
  "welcomeMessage a now =
     \<lparr>msg_id = ''welcome'',
      content = ''Hello! I'm '' @ agent_name a @ ''. '' @ shortDescription a,
      msg_role = Assistant, timestamp = now, isTyping = None\<rparr>"

text \<open>
  The effect on \<open>[agent, conversationId]\<close>: with an agent and no conversation id the
  conversation is replaced by the welcome message. It runs after mounting and whenever
  one of the two props changes.
\<close>

definition welcomeEffect :: "agent option \<Rightarrow> string option \<Rightarrow> nat \<Rightarrow> chat \<Rightarrow> chat" where
  "welcomeEffect ag conversationId now s =
     (case ag of
        Some a \<Rightarrow> (if truthy conversationId then s else s\<lparr>messages := [welcomeMessage a now]\<rparr>)
      | None \<Rightarrow> s)"

text \<open>
  The state after mounting: the initial cells, the session id
  \<open>conversationId || `${agent?.id}-${Date.now()}`\<close>, and the effect run once.
\<close>

definition mount :: "agent option \<Rightarrow> string option \<Rightarrow> nat \<Rightarrow> chat" where
  "mount ag conversationId now =
     welcomeEffect ag conversationId now
       \<lparr>messages = [],
        inputMessage = [],
        isLoading = False,
        isListening = False,
        isSpeaking = False,
        sessionId =
          orElse conversationId
            ((case ag of Some a \<Rightarrow> agent_id a | None \<Rightarrow> ''undefined'') @ ''-''
               @ toString now)\<rparr>"

definition buildRequest :: "agent \<Rightarrow> string \<Rightarrow> string \<Rightarrow> invoke_request" where
  "buildRequest a sid text =
     \<lparr>user_input = text,
      session_id = sid,
      tenant_id = ''default'',
      voice_id = elevenlabsVoiceId a,
      tts_enabled = False,
      model = ''gpt-4'',
      req_agent_id = agent_id a,
      req_traits =
        \<lparr>traits_name = agent_name a,
         traits_shortDescription = shortDescription a,
         identity = ''I am an AI assistant'',
         mission = ''To help users with their questions and tasks'',
         interactionStyle = ''Friendly and helpful'',
         creativity = 75, empathy = 80, assertiveness = 60, verbosity = 50,
         formality = 40, confidence = 70, humor = 35, technicality = 65,
         safety = 90\<rparr>\<rparr>"

text \<open>
  \<open>sendMessage\<close> up to its \<open>await\<close>. The guard and the message text read \<open>inputMessage\<close>,
  \<open>agent\<close> and \<open>isLoading\<close> as the handler's render captured them (\<open>r\<close>); the setters
  update the committed state (\<open>s\<close>): the user message is appended, the input cleared, the
  loading flag set. The second component is the request handed to \<open>api.post\<close>, \<open>None\<close>
  when the guard returned. \<open>now\<close> is the clock reading of this synchronous segment.
\<close>

definition sendMessage ::
  "(string \<Rightarrow> string) \<Rightarrow> agent option \<Rightarrow> nat \<Rightarrow> chat \<Rightarrow> chat
     \<Rightarrow> chat \<times> invoke_request option" where
  "sendMessage trim ag now r s =
     (case ag of
        None \<Rightarrow> (s, None)
      | Some a \<Rightarrow>
          if trim (inputMessage r) = [] \<or> isLoading r then (s, None)
          else
            let userMsg = \<lparr>msg_id = toString now, content = trim (inputMessage r),
                           msg_role = User, timestamp = now, isTyping = None\<rparr>
            in (s\<lparr>messages := messages s @ [userMsg], inputMessage := [], isLoading := True\<rparr>,
                Some (buildRequest a (sessionId s) (content userMsg))))"

definition errorMsg :: "nat \<Rightarrow> message" where
  "errorMsg now =
     \<lparr>msg_id = ''error'',
      content = [CHR 0xE2, CHR 0x9A, CHR 0xA0, CHR 0xEF, CHR 0xB8, CHR 0x8F]
                  @ '' Error: Agent unavailable'',
      msg_role = Assistant, timestamp = now, isTyping = None\<rparr>"

text \<open>The response passes the test \<open>data?.success && data?.agent_response\<close>.\<close>

fun replied :: "api_outcome \<Rightarrow> string option" where
  "replied (Rejected t) = None"
| "replied (Resolved None) = None"
| "replied (Resolved (Some d)) =
     (if success d \<and> truthy (agent_response d) then agent_response d else None)"

text \<open>What the \<open>catch\<close> clause receives when the turn fails.\<close>

fun caught :: "api_outcome \<Rightarrow> thrown" where
  "caught (Rejected t) = t"
| "caught (Resolved None) = ErrorObj ''Agent failed to respond''"
| "caught (Resolved (Some d)) = ErrorObj (orElse (resp_error d) ''Agent failed to respond'')"

text \<open>
  \<open>sendMessage\<close> after its \<open>await\<close>: the \<open>try\<close> body's tail, the \<open>catch\<close> clause and the
  \<open>finally\<close> clause, with the effects they cause. Every setter call here is a functional
  update or a constant, so only the committed state is read.
\<close>

definition sendMessage_settled :: "nat \<Rightarrow> api_outcome \<Rightarrow> chat \<Rightarrow> chat \<times> effect list" where
  "sendMessage_settled now out s =
     (case replied out of
        Some text \<Rightarrow>
          (s\<lparr>messages := messages s @
                [\<lparr>msg_id = toString (now + 1), content = text, msg_role = Assistant,
                  timestamp = now, isTyping = None\<rparr>],
             isLoading := False\<rparr>, [])
      | None \<Rightarrow>
          (s\<lparr>messages := messages s @ [errorMsg now], isLoading := False\<rparr>,
           [ConsoleError (caught out), ToastError ''Failed to get agent response'']))"

subsection \<open>A conversation as it runs\<close>

text \<open>What a render captured for its handlers: the agent prop and the state cells.\<close>

record view =
  view_agent :: "agent option"
  view_chat :: chat

text \<open>
  One mounted \<open>ChatInterface\<close>: its props, the committed state, the view of the render
  whose handlers and \<open>disabled\<close> attributes are on the page, the requests posted and not
  yet settled, every request ever posted, and the effects so far.
\<close>

record session =
  agentProp :: "agent option"
  conversationIdProp :: "string option"
  committed :: chat
  rendered :: view
  inflight :: "invoke_request list"
  posted :: "invoke_request list"
  effects :: "effect list"

text \<open>
  The events of a session. \<open>Render\<close>: the component renders the committed state.
  \<open>Props\<close>: the parent passes another agent or conversation id; the component renders
  and the effect on the two props runs. \<open>Edit\<close>: the user changes the input, which has no
  effect on an input rendered \<open>disabled={isLoading}\<close>. \<open>Send\<close>: Enter or the send button
  calls \<open>sendMessage\<close> of the render on the page. \<open>Settle k\<close>: the pending request at
  position \<open>k\<close> settles and its \<open>sendMessage\<close> resumes. A render may come at any time
  between two events; nothing forces one.
\<close>

datatype event =
    Render
  | Props "agent option" "string option" nat
  | Edit string
  | Send nat
  | Settle nat nat api_outcome

definition inputDisabled :: "view \<Rightarrow> bool" where
  "inputDisabled v = isLoading (view_chat v)"

fun step :: "(string \<Rightarrow> string) \<Rightarrow> session \<Rightarrow> event \<Rightarrow> session" where
  "step trim w Render =
     w\<lparr>rendered := \<lparr>view_agent = agentProp w, view_chat = committed w\<rparr>\<rparr>"
| "step trim w (Props ag cid now) =
     w\<lparr>agentProp := ag, conversationIdProp := cid,
       rendered := \<lparr>view_agent = ag, view_chat = committed w\<rparr>,
       committed := welcomeEffect ag cid now (committed w)\<rparr>"
| "step trim w (Edit v) =
     (if inputDisabled (rendered w) then w
      else w\<lparr>committed := (committed w)\<lparr>inputMessage := v\<rparr>\<rparr>)"
| "step trim w (Send now) =
     (case sendMessage trim (view_agent (rendered w)) now (view_chat (rendered w))
             (committed w) of
        (s', None) \<Rightarrow> w\<lparr>committed := s'\<rparr>
      | (s', Some q) \<Rightarrow>
          w\<lparr>committed := s', inflight := inflight w @ [q], posted := posted w @ [q],
            effects := effects w @ [ApiPost ''/api/v1/agent/invoke'' q]\<rparr>)"
| "step trim w (Settle k now out) =
     (if k < length (inflight w)
      then (case sendMessage_settled now out (committed w) of
              (s', es) \<Rightarrow>
                w\<lparr>committed := s',
                  inflight := take k (inflight w) @ drop (Suc k) (inflight w),
                  effects := effects w @ es\<rparr>)
      else w)"

definition start :: "agent option \<Rightarrow> string option \<Rightarrow> nat \<Rightarrow> session" where
  "start ag conversationId now =
     \<lparr>agentProp = ag, conversationIdProp = conversationId,
      committed = mount ag conversationId now,
      rendered = \<lparr>view_agent = ag, view_chat = mount ag conversationId now\<rparr>,
      inflight = [], posted = [], effects = []\<rparr>"

definition run :: "(string \<Rightarrow> string) \<Rightarrow> session \<Rightarrow> event list \<Rightarrow> session" where
  "run trim w evs = foldl (step trim) w evs"

text \<open>The texts of the user messages of a conversation, in order.\<close>

definition userTexts :: "message list \<Rightarrow> string list" where
  "userTexts ms = map content (filter (\<lambda>m. msg_role m = User) ms)"

text \<open>
  The user messages of the conversation are, in order, the texts of the requests posted
  last.
\<close>

definition posted_in_order :: "session \<Rightarrow> bool" where
  "posted_in_order w = suffix (userTexts (messages (committed w))) (map user_input (posted w))"

section \<open>ChatInterface, the simulated flow\<close>

definition responses :: "string list" where
  "responses =
     [''Listen, that's actually a really interesting question. Let me break this down for you with some real science...'',
      ''*burp* Oh great, another one who thinks they understand the universe. Let me explain why you're wrong...'',
      ''You know what? That's not completely stupid. Here's what you need to understand about quantum mechanics...'',
      ''Wubba lubba dub dub! But seriously, your question touches on some fundamental principles of...'',
      ''Look, I've been to 47 different dimensions, and in every single one, the answer is...'']"

definition typingMessage :: "nat \<Rightarrow> message" where
  "typingMessage now =
     \<lparr>msg_id = ''typing'', content = [], msg_role = Assistant, timestamp = now,
      isTyping = Some True\<rparr>"

text \<open>
  \<open>handleSendMessage\<close> up to its \<open>await\<close>: the guard and the message text read the state
  its render captured (\<open>r\<close>); the user message and the typing indicator are appended to
  the committed state (\<open>s\<close>), the input is cleared, the loading flag set, and the timer
  started.
\<close>

definition handleSendMessage ::
  "(string \<Rightarrow> string) \<Rightarrow> agent option \<Rightarrow> nat \<Rightarrow> cells \<Rightarrow> cells \<Rightarrow> cells \<times> effect list" where
  "handleSendMessage trim ag now r s =
     (if trim (inputMessage r) = [] \<or> ag = None \<or> isLoading r then (s, [])
      else
        let userMessage = \<lparr>msg_id = toString now, content = trim (inputMessage r),
                           msg_role = User, timestamp = now, isTyping = None\<rparr>
        in (s\<lparr>messages := messages s @ [userMessage] @ [typingMessage now],
              inputMessage := [], isLoading := True\<rparr>,
            [SetTimeout 1500]))"

text \<open>
  \<open>Math.floor\<close> of a product computed in IEEE 754 double precision, for an exact product
  \<open>x\<close> between 0 and 5. The computed product is \<open>x\<close> rounded to the nearest double, ties
  to even; an integer \<open>k\<close> is a double with an even significand, so the rounded product
  reaches \<open>k\<close> exactly when \<open>x\<close> is at least \<open>k\<close> minus half the spacing of the doubles
  just below \<open>k\<close>: that spacing is 2 to the power -53 below 1, to the power -52 below 2,
  to the power -51 below 3 and below 4, and to the power -50 below 5.
\<close>

definition floorOfDouble :: "real \<Rightarrow> nat" where
  "floorOfDouble x =
     (if x < 1 - 1 / 2 ^ 54 then 0
      else if x < 2 - 1 / 2 ^ 53 then 1
      else if x < 3 - 1 / 2 ^ 52 then 2
      else if x < 4 - 1 / 2 ^ 52 then 3
      else if x < 5 - 1 / 2 ^ 51 then 4
      else 5)"

text \<open>
  What \<open>Math.random()\<close> returns: a double that is at least 0 and less than 1, hence at most
  1 minus 2 to the power -53.
\<close>

definition randomResult :: "real \<Rightarrow> bool" where
  "randomResult r = (0 \<le> r \<and> r \<le> 1 - 1 / 2 ^ 53)"

text \<open>
  \<open>responses[Math.floor(Math.random() * responses.length)]\<close>, for the number \<open>r\<close> that
  \<open>Math.random()\<close> returned; \<open>None\<close> is the \<open>undefined\<close> of an index outside the array.
\<close>

definition pickResponse :: "real \<Rightarrow> string option" where
  "pickResponse r =
     (let i = floorOfDouble (r * real (length responses))
      in if 0 \<le> r \<and> i < length responses then Some (responses ! i) else None)"

text \<open>
  \<open>handleSendMessage\<close> once the timer has fired: the typing indicator is filtered out, the
  picked response is appended, and \<open>finally\<close> clears the loading flag. An \<open>undefined\<close>
  content renders as the empty text. Nothing in the \<open>try\<close> body can throw.
\<close>

definition handleSendMessage_elapsed :: "nat \<Rightarrow> real \<Rightarrow> cells \<Rightarrow> cells" where
  "handleSendMessage_elapsed now r s =
     (let assistantMessage =
            \<lparr>msg_id = toString (now + 1),
             content = (case pickResponse r of Some c \<Rightarrow> c | None \<Rightarrow> []),
             msg_role = Assistant, timestamp = now, isTyping = None\<rparr>
      in s\<lparr>messages := filter (\<lambda>m. msg_id m \<noteq> ''typing'') (messages s) @ [assistantMessage],
           isLoading := False\<rparr>)"

text \<open>
  The microphone and loudspeaker buttons. The toast text reads the flag of the render
  (\<open>r\<close>), the flag itself is flipped: \<open>setIsListening(!isListening)\<close>.
\<close>

definition handleVoiceToggle :: "cells \<Rightarrow> cells \<Rightarrow> cells \<times> effect list" where
  "handleVoiceToggle r s =
     (s\<lparr>isListening := \<not> isListening r\<rparr>,
      [ToastInfo (if isListening r then ''Stopped listening'' else ''Started listening'')])"

definition handleSpeakToggle :: "cells \<Rightarrow> cells \<Rightarrow> cells \<times> effect list" where
  "handleSpeakToggle r s =
     (s\<lparr>isSpeaking := \<not> isSpeaking r\<rparr>,
      [ToastInfo (if isSpeaking r then ''Stopped speaking'' else ''Started speaking'')])"

section \<open>VoiceChatPage.handleConnect\<close>

text \<open>
  An awaited operation has returned a value, has thrown, or has not settled yet: the
  handler is then suspended at the \<open>await\<close>.
\<close>

datatype 'a awaited = Returns 'a | Throws thrown | Pending








section \<open>MCPCatalog.loadData\<close>

text \<open>\<open>MCPConnector\<close> and \<open>MCPRegistryItem\<close> of \<open>types.ts\<close>, with their nested objects.\<close>

record capabilities =
  actions :: "string list"
  tools :: "string list"

record health =
  h_success :: bool
  h_status :: string
  latency_ms :: "nat option"
  h_error :: "string option"

record connector =
  conn_id :: string
  conn_name :: string
  version :: string
  description :: "string option"
  status :: string
  configured :: bool
  required_config :: "string list"
  conn_capabilities :: capabilities
  last_health :: "health option"

record registry_item =
  reg_id :: string
  reg_name :: string
  reg_version :: string
  reg_description :: "string option"
  reg_required_config :: "string list"
  reg_capabilities :: capabilities

record connectors_list_response =
  list_success :: bool
  list_connectors :: "connector list"

record registry_list_response =
  registry_success :: bool
  list_registry :: "registry_item list"

text \<open>
  What reading a property of the object literal \<open>statusOrder\<close> gives: the number stored
  under an own key, \<open>undefined\<close>, or, for a name that every object inherits from
  \<open>Object.prototype\<close>, the inherited value (a function, or the prototype itself), which is
  identified here by its name.
\<close>

datatype js_value = Num int | Undefined | Inherited string

definition objectPrototypeKeys :: "string list" where
  "objectPrototypeKeys =
     [''constructor'', ''hasOwnProperty'', ''isPrototypeOf'', ''propertyIsEnumerable'',
      ''toLocaleString'', ''toString'', ''valueOf'', ''__proto__'', ''__defineGetter__'',
      ''__defineSetter__'', ''__lookupGetter__'', ''__lookupSetter__'']"

definition statusOrder :: "(string \<times> int) list" where
  "statusOrder = [(''enabled'', 0), (''degraded'', 1), (''disabled'', 2), (''unconfigured'', 3)]"

definition getProperty :: "(string \<times> int) list \<Rightarrow> string \<Rightarrow> js_value" where
  "getProperty obj k =
     (case map_of obj k of
        Some n \<Rightarrow> Num n
      | None \<Rightarrow> if k \<in> set objectPrototypeKeys then Inherited k else Undefined)"

text \<open>\<open>v ?? d\<close>: only \<open>undefined\<close> is replaced by the default.\<close>

fun nullish :: "js_value \<Rightarrow> int \<Rightarrow> js_value" where
  "nullish Undefined d = Num d"
| "nullish v d = v"

text \<open>\<open>a - b\<close>: a number for two numbers, \<open>NaN\<close> (\<open>None\<close>) when an operand is an object.\<close>

fun minus_js :: "js_value \<Rightarrow> js_value \<Rightarrow> int option" where
  "minus_js (Num x) (Num y) = Some (x - y)"
| "minus_js a b = None"

text \<open>
  The comparator passed to \<open>sort\<close>. \<open>localeCompare\<close> is the platform's collation of two
  names, a parameter of the model.
\<close>

definition compareConnectors ::
  "(string \<Rightarrow> string \<Rightarrow> int) \<Rightarrow> connector \<Rightarrow> connector \<Rightarrow> int option" where
  "compareConnectors localeCompare a b =
     (let aOrder = nullish (getProperty statusOrder (status a)) 4;
          bOrder = nullish (getProperty statusOrder (status b)) 4
      in if aOrder \<noteq> bOrder then minus_js aOrder bOrder
         else Some (localeCompare (conn_name a) (conn_name b)))"

text \<open>
  \<open>Array.prototype.sort\<close> with a comparator. ECMAScript fixes its result where the
  comparator is a consistent comparison function for the elements: it never returns
  \<open>NaN\<close>, every element equals itself, equality is symmetric and transitive, and less
  and greater are transitive. The result is then the stable sorted arrangement, computed
  here by inserting the elements from the right, each before the first element that it
  does not exceed. For any other comparator the order is left to the engine: the model
  gives \<open>None\<close>.
\<close>

definition consistentOn :: "('a \<Rightarrow> 'a \<Rightarrow> int option) \<Rightarrow> 'a list \<Rightarrow> bool" where
  "consistentOn comparefn xs =
     list_all (\<lambda>a.
       comparefn a a = Some 0 \<and>
       list_all (\<lambda>b.
         comparefn a b \<noteq> None \<and>
         (if comparefn a b = Some 0 then comparefn b a = Some 0 else True) \<and>
         list_all (\<lambda>c.
           (case (comparefn a b, comparefn b c) of
              (Some u, Some v) \<Rightarrow>
                (if u = 0 \<and> v = 0 then comparefn a c = Some 0
                 else if u < 0 \<and> v < 0 then (case comparefn a c of Some t \<Rightarrow> t < 0 | None \<Rightarrow> False)
                 else if 0 < u \<and> 0 < v then (case comparefn a c of Some t \<Rightarrow> 0 < t | None \<Rightarrow> False)
                 else True)
            | other \<Rightarrow> False)) xs) xs) xs"

fun place :: "('a \<Rightarrow> 'a \<Rightarrow> int option) \<Rightarrow> 'a \<Rightarrow> 'a list \<Rightarrow> 'a list" where
  "place comparefn x [] = [x]"
| "place comparefn x (y # ys) =
     (case comparefn x y of
        Some v \<Rightarrow> if v \<le> 0 then x # y # ys else y # place comparefn x ys
      | None \<Rightarrow> x # y # ys)"

definition array_sort :: "('a \<Rightarrow> 'a \<Rightarrow> int option) \<Rightarrow> 'a list \<Rightarrow> 'a list option" where
  "array_sort comparefn xs =
     (if consistentOn comparefn xs then Some (foldr (place comparefn) xs []) else None)"

definition sortedConnectors ::
  "(string \<Rightarrow> string \<Rightarrow> int) \<Rightarrow> connector list \<Rightarrow> connector list option" where
  "sortedConnectors localeCompare cs = array_sort (compareConnectors localeCompare) cs"

text \<open>The state cells of \<open>MCPCatalog\<close>.\<close>

record catalog =
  connectors :: "connector list"
  registry :: "registry_item list"
  selectedConnector :: "connector option"
  catalog_error :: "string option"

text \<open>\<open>err instanceof Error ? err.message : 'Failed to load MCP data'\<close>\<close>

fun loadFailure :: "thrown \<Rightarrow> string" where
  "loadFailure (SyntaxErr m) = m"
| "loadFailure (ErrorObj m) = m"
| "loadFailure NonError = ''Failed to load MCP data''"

text \<open>
  \<open>loadData\<close>. \<open>both\<close> is how the awaited \<open>Promise.all\<close> of the two fetches settles: with
  both responses, or with the first rejection. The error is cleared first; a rejection is
  reported; a catalog response with \<open>success\<close> replaces the displayed connectors by the
  sorted list, a registry response with \<open>success\<close> replaces the registry. The result is
  \<open>None\<close> where the order of the displayed list is left to the engine.
\<close>

definition loadData ::
  "(string \<Rightarrow> string \<Rightarrow> int)
     \<Rightarrow> (connectors_list_response \<times> registry_list_response) awaited
     \<Rightarrow> catalog \<Rightarrow> catalog option" where
  "loadData localeCompare both s =
     (let s1 = s\<lparr>catalog_error := None\<rparr>
      in case both of
           Pending \<Rightarrow> Some s1
         | Throws err \<Rightarrow> Some (s1\<lparr>catalog_error := Some (loadFailure err)\<rparr>)
         | Returns (catalogResponse, registryResponse) \<Rightarrow>
             (case (if list_success catalogResponse
                    then map_option (\<lambda>sortedList. s1\<lparr>connectors := sortedList\<rparr>)
                           (sortedConnectors localeCompare (list_connectors catalogResponse))
                    else Some s1) of
                None \<Rightarrow> None
              | Some s2 \<Rightarrow>
                  Some (if registry_success registryResponse
                        then s2\<lparr>registry := list_registry registryResponse\<rparr>
                        else s2)))"

text \<open>
  The order as the specification words it: the priority enabled, degraded, disabled,
  unconfigured, any other status last; equal priorities by name.
\<close>

definition claimedPriority :: "string \<Rightarrow> nat" where
  "claimedPriority st =
     (if st = ''enabled'' then 0 else if st = ''degraded'' then 1
      else if st = ''disabled'' then 2 else if st = ''unconfigured'' then 3 else 4)"

definition claimedOrder :: "(string \<Rightarrow> string \<Rightarrow> int) \<Rightarrow> connector \<Rightarrow> connector \<Rightarrow> bool" where
  "claimedOrder localeCompare a b =
     (claimedPriority (status a) < claimedPriority (status b) \<or>
      (claimedPriority (status a) = claimedPriority (status b) \<and>
       localeCompare (conn_name a) (conn_name b) \<le> 0))"

text \<open>
  A collation: comparing two names the other way round reverses the sign, and being at
  most equal is transitive.
\<close>

definition collation :: "(string \<Rightarrow> string \<Rightarrow> int) \<Rightarrow> bool" where
  "collation lc =
     ((\<forall>a b. (lc a b < 0) = (0 < lc b a)) \<and>
      (\<forall>a b c. lc a b \<le> 0 \<and> lc b c \<le> 0 \<longrightarrow> lc a c \<le> 0))"

text \<open>
  The comparator's result for two connectors whose statuses name no inherited property,
  in the words of the specification's order.
\<close>

definition rankedCompare :: "(string \<Rightarrow> string \<Rightarrow> int) \<Rightarrow> connector \<Rightarrow> connector \<Rightarrow> int" where
  "rankedCompare lc a b =
     (if claimedPriority (status a) \<noteq> claimedPriority (status b)
      then int (claimedPriority (status a)) - int (claimedPriority (status b))
      else lc (conn_name a) (conn_name b))"


section \<open>MCPConfigForm: secret fields\<close>

definition secretFields :: "string list" where
  "secretFields = [''password'', ''api_key'', ''secret'', ''token'', ''key'']"

text \<open>
  \<open>isSecretField\<close>:
  \<open>secretFields.some(secret => fieldName.toLowerCase().includes(secret))\<close>.
\<close>

definition isSecretField :: "(string \<Rightarrow> string) \<Rightarrow> string \<Rightarrow> bool" where
  "isSecretField toLowerCase fieldName =
     list_ex (\<lambda>secret. includes_str (toLowerCase fieldName) secret) secretFields"

text \<open>
  \<open>showSecrets\<close> is an object used as a dictionary of flags. Reading a flag in a condition
  gives the stored value for an own key; for a missing key it gives \<open>undefined\<close> (falsy),
  unless the name is inherited from \<open>Object.prototype\<close>, whose value is truthy.
\<close>

definition flagOf :: "(string \<rightharpoonup> bool) \<Rightarrow> string \<Rightarrow> bool" where
  "flagOf m k = (case m k of Some b \<Rightarrow> b | None \<Rightarrow> k \<in> set objectPrototypeKeys)"

text \<open>
  \<open>toggleSecretVisibility\<close>: \<open>setShowSecrets(prev => ({...prev, [field]: !prev[field]}))\<close>.
\<close>

definition toggleSecretVisibility :: "(string \<rightharpoonup> bool) \<Rightarrow> string \<Rightarrow> (string \<rightharpoonup> bool)" where
  "toggleSecretVisibility prev field = prev(field \<mapsto> \<not> flagOf prev field)"

text \<open>The \<open>type\<close> attribute of the rendered input: \<open>showValue ? 'text' : 'password'\<close>.\<close>

datatype input_type = TextInput | PasswordInput

definition showValue :: "(string \<Rightarrow> string) \<Rightarrow> (string \<rightharpoonup> bool) \<Rightarrow> string \<Rightarrow> bool" where
  "showValue toLowerCase showSecrets field =
     (\<not> isSecretField toLowerCase field \<or> flagOf showSecrets field)"

definition inputType :: "(string \<Rightarrow> string) \<Rightarrow> (string \<rightharpoonup> bool) \<Rightarrow> string \<Rightarrow> input_type" where
  "inputType toLowerCase showSecrets field =
     (if showValue toLowerCase showSecrets field then TextInput else PasswordInput)"

text \<open>
  The flags after the visibility buttons of the listed fields were clicked in turn,
  starting from the initial \<open>{}\<close>.
\<close>

definition afterToggles :: "string list \<Rightarrow> (string \<rightharpoonup> bool)" where
  "afterToggles fs = foldl toggleSecretVisibility Map.empty fs"


section \<open>MCPTestPanel.handleTest\<close>

text \<open>A parsed JSON value; \<open>{}\<close> is \<open>JObject []\<close>.\<close>

datatype json =
    JNull | JBool bool | JNumber real | JString string | JArray "json list"
  | JObject "(string \<times> json) list"

record test_result =
  tr_success :: bool
  connector_id :: string
  tr_action :: string
  tr_result :: "json option"
  tr_error :: "string option"
  execution_time_ms :: "nat option"

record panel =
  selectedAction :: string
  testParams :: string
  testResult :: "test_result option"
  panel_error :: "string option"

text \<open>A call of the hook's \<open>testAction\<close>: connector id, action, parameters.\<close>

datatype test_call = TestAction string string json

text \<open>The message the \<open>catch\<close> clause sets for a thrown value.\<close>

fun testFailure :: "thrown \<Rightarrow> string" where
  "testFailure (SyntaxErr m) = ''Invalid JSON in test parameters''"
| "testFailure (ErrorObj m) = m"
| "testFailure NonError = ''Test failed''"

text \<open>
  \<open>handleTest\<close>. It reads the selected action and the parameter text as its render
  captured them (\<open>r\<close>) and sets the error and the result of the committed state (\<open>s\<close>).
  \<open>trim\<close> and \<open>JSON_parse\<close> are the platform's functions (\<open>None\<close> when the parser throws
  its \<open>SyntaxError\<close>), \<open>outcome\<close> is how the awaited \<open>testAction\<close> settles. The result is
  the panel state and the calls of \<open>testAction\<close> made.
\<close>

definition handleTest ::
  "(string \<Rightarrow> string) \<Rightarrow> (string \<Rightarrow> json option) \<Rightarrow> connector \<Rightarrow> test_result awaited
     \<Rightarrow> panel \<Rightarrow> panel \<Rightarrow> panel \<times> test_call list" where
  "handleTest trim JSON_parse conn outcome r s =
     (if selectedAction r = []
      then (s\<lparr>panel_error := Some ''Please select an action to test''\<rparr>, [])
      else
        let s1 = s\<lparr>panel_error := None, testResult := None\<rparr>;
            parsed = (if trim (testParams r) \<noteq> [] then JSON_parse (testParams r)
                      else Some (JObject []))
        in case parsed of
             None \<Rightarrow> (s1\<lparr>panel_error := Some ''Invalid JSON in test parameters''\<rparr>, [])
           | Some params \<Rightarrow>
               (case outcome of
                  Returns result \<Rightarrow> s1\<lparr>testResult := Some result\<rparr>
                | Throws err \<Rightarrow> s1\<lparr>panel_error := Some (testFailure err)\<rparr>
                | Pending \<Rightarrow> s1,
                [TestAction (conn_id conn) (selectedAction r) params]))"

text \<open>
  The Run Test button is rendered \<open>disabled={loading || !selectedAction}\<close>; a click
  invokes the render's \<open>handleTest\<close> only when the button is enabled.
\<close>

definition runTestDisabled :: "bool \<Rightarrow> panel \<Rightarrow> bool" where
  "runTestDisabled loading r = (loading \<or> selectedAction r = [])"

definition clickRunTest ::
  "(string \<Rightarrow> string) \<Rightarrow> (string \<Rightarrow> json option) \<Rightarrow> connector \<Rightarrow> bool
     \<Rightarrow> test_result awaited \<Rightarrow> panel \<Rightarrow> panel \<Rightarrow> panel \<times> test_call list" where
  "clickRunTest trim JSON_parse conn loading outcome r s =
     (if runTestDisabled loading r then (s, [])
      else handleTest trim JSON_parse conn outcome r s)"


section \<open>Session Supervisor: the degradation policy\<close>

text \<open>
  Modelled from the spec: the Session Supervisor. Its code (the backend's supervisor
  node) is missing, so its capability records, its degradation level and its operations
  \<open>reportCapabilityFailure\<close> and \<open>recheckCapability\<close> follow sections 3, 4.1 and 4.3 of
  the specification.
\<close>

datatype capability = STT | TTS | Vision | Telephony

record capability_status =
  failure_count :: nat
  last_failure :: "nat option"
  enabled :: bool

text \<open>
  Modelled from the spec: the glossary's \<open>None | VoiceOnly(variant) | Minimal\<close>; the
  variant is the one voice leg that is disabled. \<open>NoneLevel\<close> stands for \<open>None\<close>.
\<close>

datatype degradation_level = NoneLevel | VoiceOnly capability | Minimal

text \<open>
  Modelled from the spec: the supervisor's \<open>CapabilityStatus\<close> records, one for each
  capability.
\<close>

type_synonym supervisor = "capability \<Rightarrow> capability_status"

definition initialSupervisor :: supervisor where
  "initialSupervisor = (\<lambda>c. \<lparr>failure_count = 0, last_failure = None, enabled = True\<rparr>)"

text \<open>
  Modelled from the spec: the rules of section 4.3. Both STT and TTS disabled give
  \<open>Minimal\<close>, exactly one of them disabled gives \<open>VoiceOnly\<close>, otherwise \<open>None\<close>; the
  rules name no other capability. The level is recomputed from the records whenever it
  is read.
\<close>

definition degradationLevel :: "supervisor \<Rightarrow> degradation_level" where
  "degradationLevel s =
     (if \<not> enabled (s STT) \<and> \<not> enabled (s TTS) then Minimal
      else if \<not> enabled (s TTS) then VoiceOnly TTS
      else if \<not> enabled (s STT) then VoiceOnly STT
      else NoneLevel)"

text \<open>The order \<open>None < VoiceOnly < Minimal\<close> of the levels.\<close>

fun rank :: "degradation_level \<Rightarrow> nat" where
  "rank NoneLevel = 0"
| "rank (VoiceOnly v) = 1"
| "rank Minimal = 2"

text \<open>
  Modelled from the spec: \<open>reportCapabilityFailure\<close> increments the failure count,
  records the time, and disables the capability once the count exceeds the threshold (a
  policy constant, 3 by default). The reported error itself decides nothing and is left
  out.
\<close>

definition reportCapabilityFailure :: "nat \<Rightarrow> nat \<Rightarrow> capability \<Rightarrow> supervisor \<Rightarrow> supervisor" where
  "reportCapabilityFailure threshold now cap s =
     (let n = failure_count (s cap) + 1
      in s(cap := (s cap)\<lparr>failure_count := n, last_failure := Some now,
                         enabled := (if threshold < n then False else enabled (s cap))\<rparr>))"

text \<open>
  Modelled from the spec: \<open>recheckCapability\<close>, on success, resets the failure count and
  re-enables the capability; an unsuccessful re-check changes nothing.
\<close>

definition recheckCapability :: "capability \<Rightarrow> bool \<Rightarrow> supervisor \<Rightarrow> supervisor" where
  "recheckCapability cap healthy s =
     (if healthy then s(cap := (s cap)\<lparr>failure_count := 0, enabled := True\<rparr>) else s)"

text \<open>The calls the supervisor receives, and a sequence of failure reports as such calls.\<close>

datatype supervision = Report nat capability | Recheck capability bool

fun supervise :: "nat \<Rightarrow> supervisor \<Rightarrow> supervision \<Rightarrow> supervisor" where
  "supervise threshold s (Report now cap) = reportCapabilityFailure threshold now cap s"
| "supervise threshold s (Recheck cap healthy) = recheckCapability cap healthy s"

definition reports :: "(nat \<times> capability) list \<Rightarrow> supervision list" where
  "reports rs = map (\<lambda>(now, cap). Report now cap) rs"


section \<open>Concrete inputs\<close>

text \<open>An agent, two settlements of a request, and states of the chat components.\<close>

definition rick :: agent where
  "rick = \<lparr>agent_id = ''a1'', agent_name = ''Rick'', shortDescription = ''Scientist'',
           avatar = None, elevenlabsVoiceId = Some ''v9''\<rparr>"

definition okOutcome :: "string \<Rightarrow> api_outcome" where
  "okOutcome t = Resolved (Some \<lparr>success = True, agent_response = Some t, resp_error = None\<rparr>)"

definition failedOutcome :: api_outcome where
  "failedOutcome =
     Resolved (Some \<lparr>success = False, agent_response = None, resp_error = Some ''LLM timeout''\<rparr>)"

definition idleChat :: chat where
  "idleChat =
     \<lparr>messages = [], inputMessage = '' hello '', isLoading = False, isListening = False,
      isSpeaking = False, sessionId = ''a1-0''\<rparr>"

definition idleCells :: cells where
  "idleCells =
     \<lparr>messages = [], inputMessage = '' hello '', isLoading = False, isListening = False,
      isSpeaking = False\<rparr>"


text \<open>
  A session in which two further messages are offered while the first is in flight, and
  which then runs until nothing is pending. The component renders after every event.
\<close>

definition twoOffered :: "event list" where
  "twoOffered =
     [Edit ''first'', Render, Send 1, Render, Edit ''second'', Render, Send 2, Render,
      Edit ''third'', Render, Send 3, Render,
      Settle 0 4 (okOutcome ''hi''), Render, Settle 0 5 (okOutcome ''again''), Render]"

text \<open>The session with the first message in flight and rendered so.\<close>

definition firstInFlight :: session where
  "firstInFlight =
     run trimUtf8 (start (Some rick) None 0) [Edit ''first'', Render, Send 1, Render]"

text \<open>The double nearest to 0.6.\<close>

definition sixTenths :: real where
  "sixTenths = 5404319552844595 / 2 ^ 53"



text \<open>A collation for concrete runs: the comparison of names by their code units.\<close>

definition codeUnitCompare :: "string \<Rightarrow> string \<Rightarrow> int" where
  "codeUnitCompare a b = (if a < b then -1 else if a = b then 0 else 1)"

definition connectorOf :: "string \<Rightarrow> string \<Rightarrow> connector" where
  "connectorOf n st = \<lparr>conn_id = n, conn_name = n, version = ''1.0'', description = None, status = st,
      configured = True, required_config = [], conn_capabilities = \<lparr>actions = [], tools = []\<rparr>,
      last_health = None\<rparr>"

definition someCatalog :: "connector list" where
  "someCatalog = [connectorOf ''zeta'' ''disabled'', connectorOf ''beta'' ''enabled'', connectorOf ''x'' ''weird'',
     connectorOf ''alpha'' ''enabled'', connectorOf ''m'' ''unconfigured'', connectorOf ''d'' ''degraded'']"

text \<open>
  A catalog response whose first connector has a status that names an inherited property,
  an empty registry response, and the catalog before loading.
\<close>

definition oddCatalog :: connectors_list_response where
  "oddCatalog =
     \<lparr>list_success = True,
      list_connectors = [connectorOf ''a'' ''constructor'', connectorOf ''b'' ''enabled'']\<rparr>"

definition noRegistry :: registry_list_response where
  "noRegistry = \<lparr>registry_success = True, list_registry = []\<rparr>"

definition emptyCatalog :: catalog where
  "emptyCatalog =
     \<lparr>connectors = [], registry = [], selectedConnector = None, catalog_error = None\<rparr>"

definition pong :: test_result where
  "pong = \<lparr>tr_success = True, connector_id = ''c1'', tr_action = ''ping'',
           tr_result = Some (JString ''pong''), tr_error = None, execution_time_ms = Some 12\<rparr>"

definition blankPanel :: panel where
  "blankPanel = \<lparr>selectedAction = ''ping'', testParams = '' '', testResult = None,
                 panel_error = None\<rparr>"

definition brokenPanel :: panel where
  "brokenPanel = \<lparr>selectedAction = ''ping'', testParams = ''{oops'', testResult = Some pong,
                  panel_error = None\<rparr>"

text \<open>Four failures of TTS in a row, with the default threshold 3.\<close>

definition ttsFailing :: supervisor where
  "ttsFailing = foldl (supervise 3) initialSupervisor (reports [(1, TTS), (2, TTS), (3, TTS), (4, TTS)])"


section \<open>Properties of the chat flows\<close>

lemmas eval_text = trimUtf8_def stripLeading.simps whiteSpace_def

lemmas eval_chat = run_def start_def mount_def welcomeEffect_def sendMessage_def
  inputDisabled_def Let_def buildRequest_def rick_def okOutcome_def failedOutcome_def
  sendMessage_settled_def userTexts_def welcomeMessage_def

lemma toString_last: "last (toString n) = digitChar (n mod 10)"
  by (subst toString.simps) simp

lemma digitChar_digit: "digitChar (n mod 10) \<in> set ''0123456789''"
  unfolding digitChar_def by (rule nth_mem) simp

lemma toString_not_typing: "toString n \<noteq> ''typing''"
proof
  assume "toString n = ''typing''"
  then have "last (toString n) = CHR ''g''" by simp
  then have "digitChar (n mod 10) = CHR ''g''" by (simp add: toString_last)
  then show False using digitChar_digit [of n] by simp
qed

lemma toString_not_error: "toString n \<noteq> ''error''"
proof
  assume "toString n = ''error''"
  then have "last (toString n) = CHR ''r''" by simp
  then have "digitChar (n mod 10) = CHR ''r''" by (simp add: toString_last)
  then show False using digitChar_digit [of n] by simp
qed

lemma trimUtf8_first: "trimUtf8 ''first'' = ''first''"
  by (simp add: eval_text)

lemma trimUtf8_second: "trimUtf8 ''second'' = ''second''"
  by (simp add: eval_text)

lemma trimUtf8_third: "trimUtf8 ''third'' = ''third''"
  by (simp add: eval_text)

lemma trimUtf8_again: "trimUtf8 ''again'' = ''again''"
  by (simp add: eval_text)

lemma trimUtf8_hello: "trimUtf8 '' hello '' = ''hello''"
  by (simp add: eval_text)

lemmas eval_trim = trimUtf8_first trimUtf8_second trimUtf8_third trimUtf8_again
  trimUtf8_hello

lemma sendMessage_loading: "isLoading r \<Longrightarrow> sendMessage trim ag now r s = (s, None)"
  by (cases ag) (simp_all add: sendMessage_def)

lemma handleSendMessage_accepts:
  assumes "trim (inputMessage r) \<noteq> []" and "\<not> isLoading r"
  shows "handleSendMessage trim (Some a) now r s
           = (s\<lparr>messages := messages s @
                   [\<lparr>msg_id = toString now, content = trim (inputMessage r),
                     msg_role = User, timestamp = now, isTyping = None\<rparr>,
                    typingMessage now],
                 inputMessage := [], isLoading := True\<rparr>,
              [SetTimeout 1500])"
  using assms by (simp add: handleSendMessage_def Let_def)

subsection \<open>Two calls from one render\<close>


subsection \<open>No queue of offered messages\<close>

lemma posted_in_order_start: "posted_in_order (start ag cid now)"
  by (cases ag)
     (simp_all add: posted_in_order_def start_def mount_def welcomeEffect_def userTexts_def
        welcomeMessage_def)

lemma posted_in_order_step: "posted_in_order w \<Longrightarrow> posted_in_order (step trim w e)"
proof (cases e)
  case Render
  then show "posted_in_order w \<Longrightarrow> posted_in_order (step trim w e)"
    by (simp add: posted_in_order_def)
next
  case (Props ag cid now)
  then show "posted_in_order w \<Longrightarrow> posted_in_order (step trim w e)"
    by (cases ag)
       (simp_all add: posted_in_order_def welcomeEffect_def userTexts_def welcomeMessage_def)
next
  case (Edit v)
  then show "posted_in_order w \<Longrightarrow> posted_in_order (step trim w e)"
    by (simp add: posted_in_order_def)
next
  case (Send now)
  then show "posted_in_order w \<Longrightarrow> posted_in_order (step trim w e)"
    by (cases "view_agent (rendered w)")
       (auto simp: posted_in_order_def sendMessage_def Let_def userTexts_def buildRequest_def)
next
  case (Settle k now out)
  then show "posted_in_order w \<Longrightarrow> posted_in_order (step trim w e)"
    by (cases "replied out")
       (auto simp: posted_in_order_def sendMessage_settled_def userTexts_def errorMsg_def)
qed

lemma posted_in_order_run: "posted_in_order w \<Longrightarrow> posted_in_order (run trim w evs)"
  unfolding run_def
  by (induction evs arbitrary: w) (simp_all add: posted_in_order_step)

lemma step_loading:
  "isLoading (view_chat (rendered w))
     \<Longrightarrow> step trim w (Edit v) = w \<and> step trim w (Send now) = w"
  by (simp add: inputDisabled_def sendMessage_loading)

lemma send_posts_at_once:
  "step trim w (Send now) = w \<or>
   (\<exists>q. user_input q = trim (inputMessage (view_chat (rendered w))) \<and>
        posted (step trim w (Send now)) = posted w @ [q] \<and>
        inflight (step trim w (Send now)) = inflight w @ [q])"
  by (cases "view_agent (rendered w)")
     (auto simp: sendMessage_def Let_def buildRequest_def)

text \<open>
  Claim C3, as stated, fails: messages offered while a turn is in flight are not kept in a
  queue. In the session \<open>twoOffered\<close> the texts \<open>second\<close> and \<open>third\<close> are offered
  while \<open>first\<close> is being processed; after everything has settled only \<open>first\<close> was ever
  posted, nothing is pending and the input is empty: the two later texts are gone.
\<close>

theorem queue_counterexample:
  "map user_input (posted (run trimUtf8 (start (Some rick) None 0) twoOffered)) = [''first''] \<and>
   userTexts (messages (committed (run trimUtf8 (start (Some rick) None 0) twoOffered)))
     = [''first''] \<and>
   inflight (run trimUtf8 (start (Some rick) None 0) twoOffered) = [] \<and>
   inputMessage (committed (run trimUtf8 (start (Some rick) None 0) twoOffered)) = []"
  by (simp add: eval_chat twoOffered_def eval_trim)

text \<open>
  Claim C3, amended. While the loading flag is set in the render on the page, the chat
  accepts no further message: an edit of the disabled input and a call of \<open>sendMessage\<close>
  both leave the whole session unchanged, so nothing is queued. A call of \<open>sendMessage\<close>
  either changes nothing or posts the trimmed input at once; messages are therefore
  processed in the order in which they were accepted: after any sequence of events the
  conversation's user messages are, in order, the texts of the requests posted last.
\<close>

theorem no_queue_in_flight:
  "(isLoading (view_chat (rendered w))
      \<longrightarrow> step trim w (Edit v) = w \<and> step trim w (Send now) = w) \<and>
   (step trim w (Send now) = w \<or>
    (\<exists>q. user_input q = trim (inputMessage (view_chat (rendered w))) \<and>
         posted (step trim w (Send now)) = posted w @ [q] \<and>
         inflight (step trim w (Send now)) = inflight w @ [q])) \<and>
   suffix (userTexts (messages (committed (run trim (start ag cid t0) evs))))
     (map user_input (posted (run trim (start ag cid t0) evs)))"
  using posted_in_order_run [OF posted_in_order_start, of trim ag cid t0 evs]
    step_loading [of w trim v now] send_posts_at_once [of trim w now]
  by (simp add: posted_in_order_def)

theorem no_queue_in_flight_witness:
  "isLoading (view_chat (rendered firstInFlight)) \<and>
   step trimUtf8 firstInFlight (Edit ''second'') = firstInFlight \<and>
   step trimUtf8 firstInFlight (Send 2) = firstInFlight \<and>
   map user_input (posted firstInFlight) = [''first'']"
  using no_queue_in_flight [of firstInFlight trimUtf8 "''second''" 2 None None 0 "[]"]
  by (simp add: firstInFlight_def eval_chat eval_trim)

subsection \<open>Failures of a turn\<close>

text \<open>
  Claim C4. Every failure of the agent call (a rejected request, an empty body, a body
  without \<open>success\<close> or without a response text) is caught inside the turn: the
  conversation gains an assistant message with the text \<open>Error: Agent unavailable\<close> behind
  a warning sign, the failure is logged and shown as a toast, the loading flag is cleared
  and the request is no longer pending. The session goes on: once the component has
  rendered, the next message the user enters is accepted and posted.
\<close>

theorem error_contained:
  assumes "replied out = None" and "k < length (inflight w)" and "trim v \<noteq> []"
    and "agentProp w = Some a"
  shows "committed (step trim w (Settle k now out))
           = (committed w)\<lparr>messages := messages (committed w) @
                [\<lparr>msg_id = ''error'',
                  content = [CHR 0xE2, CHR 0x9A, CHR 0xA0, CHR 0xEF, CHR 0xB8, CHR 0x8F]
                              @ '' Error: Agent unavailable'',
                  msg_role = Assistant, timestamp = now, isTyping = None\<rparr>],
              isLoading := False\<rparr> \<and>
         effects (step trim w (Settle k now out))
           = effects w @ [ConsoleError (caught out), ToastError ''Failed to get agent response''] \<and>
         inflight (step trim w (Settle k now out))
           = take k (inflight w) @ drop (Suc k) (inflight w) \<and>
         posted (run trim (step trim w (Settle k now out)) [Render, Edit v, Render, Send now'])
           = posted w @ [buildRequest a (sessionId (committed w)) (trim v)]"
  using assms
  by (simp add: sendMessage_settled_def errorMsg_def run_def inputDisabled_def sendMessage_def
      Let_def)

theorem error_contained_witness:
  "replied failedOutcome = None \<and>
   0 < length (inflight firstInFlight) \<and>
   trimUtf8 ''again'' \<noteq> [] \<and>
   agentProp firstInFlight = Some rick \<and>
   map content (messages (committed (step trimUtf8 firstInFlight (Settle 0 2 failedOutcome))))
     = [''Hello! I'm Rick. Scientist'', ''first'',
        [CHR 0xE2, CHR 0x9A, CHR 0xA0, CHR 0xEF, CHR 0xB8, CHR 0x8F]
          @ '' Error: Agent unavailable''] \<and>
   map user_input (posted (run trimUtf8
        (step trimUtf8 firstInFlight (Settle 0 2 failedOutcome))
        [Render, Edit ''again'', Render, Send 3])) = [''first'', ''again'']"
proof -
  have h: "replied failedOutcome = None" "0 < length (inflight firstInFlight)"
    "trimUtf8 ''again'' \<noteq> []" "agentProp firstInFlight = Some rick"
    by (simp_all add: firstInFlight_def eval_chat eval_trim)
  have p: "map user_input (posted firstInFlight) = [''first'']"
    by (simp add: firstInFlight_def eval_chat eval_trim)
  have m: "map content (messages (committed firstInFlight))
             = [''Hello! I'm Rick. Scientist'', ''first'']"
    by (simp add: firstInFlight_def eval_chat eval_trim)
  show ?thesis
    using error_contained [of failedOutcome 0 firstInFlight trimUtf8 "''again''" rick 2 3,
        OF h] h p m
    by (simp add: buildRequest_def eval_trim)
qed

subsection \<open>Text-only replies\<close>

text \<open>
  Claim C5. Every request \<open>sendMessage\<close> posts has \<open>tts_enabled\<close> false. A turn that
  completes (the response passed the success test) has a non-empty reply text, which is
  appended as an assistant message that is not the error message; the completion causes no
  effect at all: no error toast, and no audio, for which the flow has no handle.
\<close>

theorem text_only_reply:
  "(sendMessage trim ag now r s = (s', Some q) \<longrightarrow> \<not> tts_enabled q) \<and>
   (replied out = Some text \<longrightarrow>
      text \<noteq> [] \<and>
      sendMessage_settled t out s
        = (s\<lparr>messages := messages s @
               [\<lparr>msg_id = toString (t + 1), content = text, msg_role = Assistant,
                 timestamp = t, isTyping = None\<rparr>],
             isLoading := False\<rparr>, []) \<and>
      msg_id (last (messages (fst (sendMessage_settled t out s)))) \<noteq> msg_id (errorMsg t))"
proof -
  have a: "sendMessage trim ag now r s = (s', Some q) \<Longrightarrow> \<not> tts_enabled q"
    by (cases ag) (auto simp: sendMessage_def Let_def buildRequest_def split: if_splits)
  have b: "replied out = Some text \<Longrightarrow> text \<noteq> []"
    by (cases out rule: replied.cases) (auto split: if_splits)
  show ?thesis
    using a b by (auto simp: sendMessage_settled_def errorMsg_def toString_not_error)
qed

theorem text_only_reply_witness:
  "sendMessage trimUtf8 (Some rick) 1 idleChat idleChat
     = (fst (sendMessage trimUtf8 (Some rick) 1 idleChat idleChat),
        Some (buildRequest rick ''a1-0'' ''hello'')) \<and>
   \<not> tts_enabled (buildRequest rick ''a1-0'' ''hello'') \<and>
   replied (okOutcome ''hi'') = Some ''hi'' \<and>
   snd (sendMessage_settled 2 (okOutcome ''hi'') idleChat) = []"
  using text_only_reply [of trimUtf8 "Some rick" 1 idleChat idleChat
      "fst (sendMessage trimUtf8 (Some rick) 1 idleChat idleChat)"
      "buildRequest rick ''a1-0'' ''hello''" "okOutcome ''hi''" "''hi''" 2]
  by (simp add: eval_chat idleChat_def eval_trim)

subsection \<open>The simulated flow\<close>

lemma responses_length: "length responses = 5"
  by (simp add: responses_def)

lemma floorOfDouble_random:
  assumes "randomResult r"
  shows "floorOfDouble (r * 5) < 5"
proof -
  have "r * 5 \<le> 5 - 5 / 2 ^ 53"
    using assms by (simp add: randomResult_def)
  then have "r * 5 < 5 - 1 / 2 ^ 51"
    by simp
  then show ?thesis
    by (simp add: floorOfDouble_def)
qed

lemma pickResponse_canned:
  assumes "randomResult r"
  shows "\<exists>c \<in> set responses. pickResponse r = Some c"
proof -
  have lo: "0 \<le> r"
    using assms by (simp add: randomResult_def)
  have hi: "floorOfDouble (r * 5) < length responses"
    using floorOfDouble_random [OF assms] by (simp only: responses_length)
  then have "responses ! floorOfDouble (r * 5) \<in> set responses"
    by (rule nth_mem)
  then show ?thesis
    using lo hi by (simp add: pickResponse_def Let_def responses_length)
qed

text \<open>
  Claim C7. In the simulated chat flow an accepted message sets the loading flag and
  causes exactly one effect, a timer of 1500 ms; when it fires, the typing indicator is
  removed and the assistant message appended has one of the five canned response strings
  as its content, chosen by the number \<open>Math.random()\<close> returned. The voice and speaker
  buttons only flip a flag and show a toast. No speech-to-text or text-to-speech call is
  among the effects.
\<close>

theorem simulated_response:
  assumes "trim (inputMessage r) \<noteq> []" and "\<not> isLoading r" and "randomResult x"
  shows "snd (handleSendMessage trim (Some a) now r s) = [SetTimeout 1500] \<and>
         isLoading (fst (handleSendMessage trim (Some a) now r s)) \<and>
         length responses = 5 \<and>
         (\<exists>c \<in> set responses.
            handleSendMessage_elapsed t x (fst (handleSendMessage trim (Some a) now r s))
              = s\<lparr>messages :=
                     filter (\<lambda>m. msg_id m \<noteq> ''typing'')
                       (messages s @
                        [\<lparr>msg_id = toString now, content = trim (inputMessage r),
                          msg_role = User, timestamp = now, isTyping = None\<rparr>]) @
                     [\<lparr>msg_id = toString (t + 1), content = c, msg_role = Assistant,
                       timestamp = t, isTyping = None\<rparr>],
                   inputMessage := [], isLoading := False\<rparr>) \<and>
         snd (handleVoiceToggle r s)
           = [ToastInfo (if isListening r then ''Stopped listening'' else ''Started listening'')] \<and>
         snd (handleSpeakToggle r s)
           = [ToastInfo (if isSpeaking r then ''Stopped speaking'' else ''Started speaking'')]"
proof -
  note acc = handleSendMessage_accepts [of trim r, OF assms(1,2)]
  obtain c where c: "c \<in> set responses" "pickResponse x = Some c"
    using pickResponse_canned [OF assms(3)] by blast
  have "handleSendMessage_elapsed t x (fst (handleSendMessage trim (Some a) now r s))
              = s\<lparr>messages :=
                     filter (\<lambda>m. msg_id m \<noteq> ''typing'')
                       (messages s @
                        [\<lparr>msg_id = toString now, content = trim (inputMessage r),
                          msg_role = User, timestamp = now, isTyping = None\<rparr>]) @
                     [\<lparr>msg_id = toString (t + 1), content = c, msg_role = Assistant,
                       timestamp = t, isTyping = None\<rparr>],
                   inputMessage := [], isLoading := False\<rparr>"
    using c(2) by (simp add: acc handleSendMessage_elapsed_def typingMessage_def)
  then show ?thesis
    using c(1)
    by (auto simp add: acc responses_length handleVoiceToggle_def handleSpeakToggle_def)
qed

theorem simulated_response_witness:
  "trimUtf8 (inputMessage idleCells) \<noteq> [] \<and> \<not> isLoading idleCells \<and> randomResult sixTenths \<and>
   snd (handleSendMessage trimUtf8 (Some rick) 1 idleCells idleCells) = [SetTimeout 1500] \<and>
   map content (messages (handleSendMessage_elapsed 2 sixTenths
        (fst (handleSendMessage trimUtf8 (Some rick) 1 idleCells idleCells))))
     = [''hello'', responses ! 3]"
proof -
  have h: "trimUtf8 (inputMessage idleCells) \<noteq> []" "\<not> isLoading idleCells"
    by (simp_all add: idleCells_def eval_trim)
  have r: "randomResult sixTenths"
    by (simp add: randomResult_def sixTenths_def)
  have p: "pickResponse sixTenths = Some (responses ! 3)"
    by (simp add: pickResponse_def responses_length floorOfDouble_def sixTenths_def)
  have n: "toString 1 \<noteq> ''typing''"
    by (rule toString_not_typing)
  show ?thesis
    using simulated_response [of trimUtf8 idleCells sixTenths rick 1 idleCells 2, OF h r]
      h r p n
    by (simp add: handleSendMessage_accepts [of trimUtf8 idleCells, OF h]
        handleSendMessage_elapsed_def typingMessage_def)
       (simp add: idleCells_def eval_trim)
qed

section \<open>Properties of handleConnect\<close>




section \<open>Properties of the catalog order\<close>

lemma mset_place: "mset (place f x xs) = add_mset x (mset xs)"
  by (induction xs) (auto split: option.splits)

lemma mset_insertion: "mset (foldr (place f) xs []) = mset xs"
  by (induction xs) (auto simp: mset_place)

lemma set_place: "set (place f x xs) = insert x (set xs)"
  by (induction xs) (auto split: option.splits)

lemma priority_known:
  "st \<notin> set objectPrototypeKeys \<Longrightarrow>
     nullish (getProperty statusOrder st) 4 = Num (int (claimedPriority st))"
  by (simp add: getProperty_def statusOrder_def claimedPriority_def)

lemma compare_known:
  assumes "status a \<notin> set objectPrototypeKeys" and "status b \<notin> set objectPrototypeKeys"
  shows "compareConnectors lc a b
           = Some (if claimedPriority (status a) \<noteq> claimedPriority (status b)
                   then int (claimedPriority (status a)) - int (claimedPriority (status b))
                   else lc (conn_name a) (conn_name b))"
  using assms by (simp add: compareConnectors_def Let_def priority_known)

lemma collation_flip: "collation lc \<Longrightarrow> (lc a b < 0) = (0 < lc b a)"
  unfolding collation_def by blast

lemma collation_le_trans: "collation lc \<Longrightarrow> lc a b \<le> 0 \<Longrightarrow> lc b c \<le> 0 \<Longrightarrow> lc a c \<le> 0"
  unfolding collation_def by blast

lemma collation_refl:
  assumes "collation lc"
  shows "lc a a = 0"
proof -
  have "(lc a a < 0) = (0 < lc a a)"
    by (rule collation_flip [OF assms])
  then show ?thesis by arith
qed

lemma collation_sym:
  assumes "collation lc" and "lc a b = 0"
  shows "lc b a = 0"
proof -
  have "(lc a b < 0) = (0 < lc b a)" "(lc b a < 0) = (0 < lc a b)"
    by (rule collation_flip [OF assms(1)])+
  then show ?thesis using assms(2) by arith
qed

lemma collation_eq_trans:
  assumes "collation lc" and "lc a b = 0" and "lc b c = 0"
  shows "lc a c = 0"
proof -
  have "lc a c \<le> 0"
    using collation_le_trans [OF assms(1), of a b c] assms(2,3) by simp
  moreover have "lc c a \<le> 0"
    using collation_le_trans [OF assms(1), of c b a]
      collation_sym [OF assms(1,2)] collation_sym [OF assms(1,3)] by simp
  ultimately show ?thesis
    using collation_flip [OF assms(1), of a c] by linarith
qed

lemma collation_less_trans:
  assumes "collation lc" and "lc a b < 0" and "lc b c < 0"
  shows "lc a c < 0"
proof (rule ccontr)
  assume "\<not> lc a c < 0"
  moreover have "lc a c \<le> 0"
    using collation_le_trans [OF assms(1), of a b c] assms(2,3) by simp
  ultimately have "lc a c = 0" by simp
  then have "lc c a = 0" by (rule collation_sym [OF assms(1)])
  then have "lc c b \<le> 0"
    using collation_le_trans [OF assms(1), of c a b] assms(2) by simp
  then show False
    using collation_flip [OF assms(1), of b c] assms(3) by simp
qed

lemma collation_greater_trans:
  assumes "collation lc" and "0 < lc a b" and "0 < lc b c"
  shows "0 < lc a c"
  using collation_less_trans [OF assms(1), of c b a] assms(2,3)
    collation_flip [OF assms(1)] by simp


lemma compare_ranked:
  assumes "status a \<notin> set objectPrototypeKeys" and "status b \<notin> set objectPrototypeKeys"
  shows "compareConnectors lc a b = Some (rankedCompare lc a b)"
  using assms by (simp add: compare_known rankedCompare_def)

lemma ranked_refl: "collation lc \<Longrightarrow> rankedCompare lc a a = 0"
  using collation_refl [of lc "conn_name a"] by (simp add: rankedCompare_def)

lemma ranked_sym: "collation lc \<Longrightarrow> rankedCompare lc a b = 0 \<Longrightarrow> rankedCompare lc b a = 0"
  using collation_sym [of lc "conn_name a" "conn_name b"]
  by (simp add: rankedCompare_def split: if_splits)

lemma ranked_eq_trans:
  assumes "collation lc" and "rankedCompare lc a b = 0" and "rankedCompare lc b c = 0"
  shows "rankedCompare lc a c = 0"
proof -
  have "claimedPriority (status a) = claimedPriority (status b)"
    "lc (conn_name a) (conn_name b) = 0"
    using assms(2) by (simp_all add: rankedCompare_def split: if_splits)
  moreover have "claimedPriority (status b) = claimedPriority (status c)"
    "lc (conn_name b) (conn_name c) = 0"
    using assms(3) by (simp_all add: rankedCompare_def split: if_splits)
  ultimately show ?thesis
    using collation_eq_trans [OF assms(1), of "conn_name a" "conn_name b" "conn_name c"]
    by (simp add: rankedCompare_def)
qed

lemma ranked_less:
  "rankedCompare lc a b < 0 \<longleftrightarrow>
     claimedPriority (status a) < claimedPriority (status b) \<or>
     (claimedPriority (status a) = claimedPriority (status b) \<and>
      lc (conn_name a) (conn_name b) < 0)"
  by (simp add: rankedCompare_def)

lemma ranked_greater:
  "0 < rankedCompare lc a b \<longleftrightarrow>
     claimedPriority (status b) < claimedPriority (status a) \<or>
     (claimedPriority (status a) = claimedPriority (status b) \<and>
      0 < lc (conn_name a) (conn_name b))"
  by (simp add: rankedCompare_def)

lemma ranked_less_trans:
  assumes "collation lc" and "rankedCompare lc a b < 0" and "rankedCompare lc b c < 0"
  shows "rankedCompare lc a c < 0"
  using assms(2,3) collation_less_trans [OF assms(1), of "conn_name a" "conn_name b" "conn_name c"]
  unfolding ranked_less by auto

lemma ranked_greater_trans:
  assumes "collation lc" and "0 < rankedCompare lc a b" and "0 < rankedCompare lc b c"
  shows "0 < rankedCompare lc a c"
  using assms(2,3)
    collation_greater_trans [OF assms(1), of "conn_name a" "conn_name b" "conn_name c"]
  unfolding ranked_greater by auto

lemma consistent_known:
  assumes col: "collation lc"
    and known: "\<forall>c \<in> set cs. status c \<notin> set objectPrototypeKeys"
  shows "consistentOn (compareConnectors lc) cs"
  unfolding consistentOn_def list_all_iff
proof (intro ballI conjI)
  fix a assume "a \<in> set cs"
  then show "compareConnectors lc a a = Some 0"
    using known by (simp add: compare_ranked ranked_refl [OF col])
next
  fix a b assume "a \<in> set cs" "b \<in> set cs"
  then show "compareConnectors lc a b \<noteq> None"
    using known by (simp add: compare_ranked)
next
  fix a b assume "a \<in> set cs" "b \<in> set cs"
  then show "if compareConnectors lc a b = Some 0 then compareConnectors lc b a = Some 0
             else True"
    using known ranked_sym [OF col, of a b] by (simp add: compare_ranked)
next
  fix a b c assume "a \<in> set cs" "b \<in> set cs" "c \<in> set cs"
  then have "compareConnectors lc a b = Some (rankedCompare lc a b)"
    "compareConnectors lc b c = Some (rankedCompare lc b c)"
    "compareConnectors lc a c = Some (rankedCompare lc a c)"
    using known by (simp_all add: compare_ranked)
  then show "case (compareConnectors lc a b, compareConnectors lc b c) of
       (Some u, Some v) \<Rightarrow>
         if u = 0 \<and> v = 0 then compareConnectors lc a c = Some 0
         else if u < 0 \<and> v < 0
              then (case compareConnectors lc a c of Some t \<Rightarrow> t < 0 | None \<Rightarrow> False)
              else if 0 < u \<and> 0 < v
                   then (case compareConnectors lc a c of Some t \<Rightarrow> 0 < t | None \<Rightarrow> False)
                   else True
     | other \<Rightarrow> False"
    using ranked_eq_trans [OF col, of a b c] ranked_less_trans [OF col, of a b c]
      ranked_greater_trans [OF col, of a b c]
    by simp
qed

lemma claimedOrder_total:
  assumes "collation lc" and "\<not> claimedOrder lc a b"
  shows "claimedOrder lc b a"
proof -
  have "(lc (conn_name b) (conn_name a) < 0) = (0 < lc (conn_name a) (conn_name b))"
    by (rule collation_flip [OF assms(1)])
  then show ?thesis
    using assms(2) unfolding claimedOrder_def by auto
qed

lemma claimedOrder_trans:
  assumes "collation lc" and "claimedOrder lc a b" and "claimedOrder lc b c"
  shows "claimedOrder lc a c"
  using assms(2,3) collation_le_trans [OF assms(1), of "conn_name a" "conn_name b" "conn_name c"]
  unfolding claimedOrder_def by auto

lemma place_known:
  assumes "status x \<notin> set objectPrototypeKeys" and "status y \<notin> set objectPrototypeKeys"
  shows "place (compareConnectors lc) x (y # ys)
           = (if claimedOrder lc x y then x # y # ys else y # place (compareConnectors lc) x ys)"
  using assms by (auto simp: compare_ranked rankedCompare_def claimedOrder_def)

lemma sorted_place:
  assumes col: "collation lc"
    and known: "\<forall>c \<in> set (x # xs). status c \<notin> set objectPrototypeKeys"
    and srt: "sorted_wrt (claimedOrder lc) xs"
  shows "sorted_wrt (claimedOrder lc) (place (compareConnectors lc) x xs)"
  using known srt
proof (induction xs)
  case Nil
  then show ?case by simp
next
  case (Cons y ys)
  have pl: "place (compareConnectors lc) x (y # ys)
           = (if claimedOrder lc x y then x # y # ys else y # place (compareConnectors lc) x ys)"
    using Cons.prems(1) by (simp add: place_known del: place.simps)
  show ?case
  proof (cases "claimedOrder lc x y")
    case True
    have "\<forall>z \<in> set ys. claimedOrder lc x z"
      using True Cons.prems(2) claimedOrder_trans [OF col] by auto
    then show ?thesis using True pl Cons.prems(2) by simp
  next
    case False
    then have yx: "claimedOrder lc y x" by (rule claimedOrder_total [OF col])
    have "sorted_wrt (claimedOrder lc) (place (compareConnectors lc) x ys)"
      using Cons by simp
    then show ?thesis using False pl yx Cons.prems(2) by (auto simp: set_place)
  qed
qed

lemma sorted_insertion:
  assumes "collation lc" and "\<forall>c \<in> set cs. status c \<notin> set objectPrototypeKeys"
  shows "sorted_wrt (claimedOrder lc) (foldr (place (compareConnectors lc)) cs [])"
  using assms(2)
proof (induction cs)
  case Nil
  then show ?case by simp
next
  case (Cons c cs)
  have "set (foldr (place (compareConnectors lc)) cs []) = set cs"
    by (metis mset_insertion set_mset_mset)
  then have "\<forall>d \<in> set (c # foldr (place (compareConnectors lc)) cs []).
               status d \<notin> set objectPrototypeKeys"
    using Cons.prems by simp
  moreover have "sorted_wrt (claimedOrder lc) (foldr (place (compareConnectors lc)) cs [])"
    using Cons by simp
  ultimately have "sorted_wrt (claimedOrder lc)
      (place (compareConnectors lc) c (foldr (place (compareConnectors lc)) cs []))"
    by (rule sorted_place [OF assms(1)])
  then show ?case by simp
qed

lemma sortedConnectors_known:
  assumes "collation lc" and "\<forall>c \<in> set cs. status c \<notin> set objectPrototypeKeys"
  shows "sortedConnectors lc cs = Some (foldr (place (compareConnectors lc)) cs [])"
  using consistent_known [OF assms] by (simp add: sortedConnectors_def array_sort_def)

text \<open>
  On the statuses the comparator handles, every status of the declared type and every
  other one that names no inherited property, \<open>loadData\<close> displays the catalog's
  connectors sorted as the specification says: by status priority, then by name.
\<close>

lemma loadData_sorted:
  assumes "collation lc"
    and "\<forall>c \<in> set (list_connectors catalogResponse). status c \<notin> set objectPrototypeKeys"
    and "list_success catalogResponse"
  shows "\<exists>s'. loadData lc (Returns (catalogResponse, registryResponse)) s = Some s' \<and>
              sorted_wrt (claimedOrder lc) (connectors s') \<and>
              mset (connectors s') = mset (list_connectors catalogResponse)"
  using assms(3) sorted_insertion [OF assms(1,2)]
  by (auto simp: loadData_def Let_def sortedConnectors_known [OF assms(1,2)] mset_insertion)

lemma collation_codeUnitCompare: "collation codeUnitCompare"
  unfolding collation_def codeUnitCompare_def by auto

lemmas eval_sort = compareConnectors_def getProperty_def statusOrder_def
  objectPrototypeKeys_def codeUnitCompare_def connectorOf_def Let_def

lemma sorted_example:
  "map_option (map conn_name) (sortedConnectors codeUnitCompare someCatalog)
     = Some [''alpha'', ''beta'', ''d'', ''zeta'', ''m'', ''x'']"
proof -
  have k: "\<forall>c \<in> set someCatalog. status c \<notin> set objectPrototypeKeys"
    by (simp add: someCatalog_def connectorOf_def objectPrototypeKeys_def)
  show ?thesis
    unfolding sortedConnectors_known [OF collation_codeUnitCompare k]
    by (simp add: eval_sort someCatalog_def)
qed

text \<open>
  Claim C8 does not hold of the code for a status that names an inherited property. The
  lookup of \<open>constructor\<close> in \<open>statusOrder\<close> is not \<open>undefined\<close>, so \<open>?? 4\<close> does not
  apply and the comparator returns \<open>NaN\<close> against a connector of another status, in both
  directions: it is no consistent comparison function, and the order of the displayed
  list is left to the engine. A stable insertion that reads \<open>NaN\<close> as \<open>0\<close> leaves the
  connector in front of the enabled one instead of putting it last.
\<close>

theorem inherited_status_unsorted:
  "compareConnectors codeUnitCompare (connectorOf ''a'' ''constructor'') (connectorOf ''b'' ''enabled'')
     = None \<and>
   compareConnectors codeUnitCompare (connectorOf ''b'' ''enabled'') (connectorOf ''a'' ''constructor'')
     = None \<and>
   loadData codeUnitCompare (Returns (oddCatalog, noRegistry)) emptyCatalog = None \<and>
   map conn_name (foldr (place (compareConnectors codeUnitCompare)) (list_connectors oddCatalog) [])
     = [''a'', ''b'']"
  by (simp add: eval_sort loadData_def sortedConnectors_def array_sort_def consistentOn_def
      oddCatalog_def)

section \<open>Properties of the configuration form\<close>

lemma startsWith_iff: "startsWith s p \<longleftrightarrow> (\<exists>post. s = p @ post)"
  by (induction s p rule: startsWith.induct) auto

lemma includes_iff: "includes_str s sub \<longleftrightarrow> (\<exists>pre post. s = pre @ sub @ post)"
proof (induction s)
  case Nil
  then show ?case by auto
next
  case (Cons c cs)
  show ?case
  proof
    assume "includes_str (c # cs) sub"
    then consider "startsWith (c # cs) sub" | "includes_str cs sub" by auto
    then show "\<exists>pre post. c # cs = pre @ sub @ post"
    proof cases
      case 1
      then obtain post where "c # cs = sub @ post" by (auto simp: startsWith_iff)
      then have "c # cs = [] @ sub @ post" by simp
      then show ?thesis by blast
    next
      case 2
      then obtain pre post where "cs = pre @ sub @ post" using Cons.IH by blast
      then have "c # cs = (c # pre) @ sub @ post" by simp
      then show ?thesis by blast
    qed
  next
    assume "\<exists>pre post. c # cs = pre @ sub @ post"
    then obtain pre post where e: "c # cs = pre @ sub @ post" by blast
    show "includes_str (c # cs) sub"
    proof (cases pre)
      case Nil
      then have "startsWith (c # cs) sub" using e by (auto simp: startsWith_iff)
      then show ?thesis by simp
    next
      case (Cons d ds)
      then have "cs = ds @ sub @ post" using e by simp
      then have "includes_str cs sub" using Cons.IH by blast
      then show ?thesis by simp
    qed
  qed
qed

lemma inherited_ascii: "k \<in> set objectPrototypeKeys \<Longrightarrow> list_all isAscii k"
  by (auto simp: objectPrototypeKeys_def isAscii_def)

lemma inherited_lowered_not_secret:
  "k \<in> set objectPrototypeKeys
     \<Longrightarrow> \<not> list_ex (\<lambda>secret. includes_str (map lowerChar k) secret) secretFields"
  by (auto simp: objectPrototypeKeys_def secretFields_def lowerChar_def)

lemma inherited_not_secret:
  assumes "asciiCaseMap toLowerCase" and "k \<in> set objectPrototypeKeys"
  shows "\<not> isSecretField toLowerCase k"
proof -
  have "toLowerCase k = map lowerChar k"
    using assms(1) inherited_ascii [OF assms(2)] unfolding asciiCaseMap_def by blast
  then show ?thesis
    using inherited_lowered_not_secret [OF assms(2)] by (simp add: isSecretField_def)
qed

lemma isSecretField_iff:
  "isSecretField toLowerCase f \<longleftrightarrow>
     (\<exists>secret \<in> set [''password'', ''api_key'', ''secret'', ''token'', ''key''].
        \<exists>pre post. toLowerCase f = pre @ secret @ post)"
  unfolding isSecretField_def secretFields_def list_ex_iff includes_iff ..

lemma afterToggles_snoc:
  "afterToggles (fs @ [g]) = toggleSecretVisibility (afterToggles fs) g"
  by (simp add: afterToggles_def)

lemma flagOf_afterToggles:
  "f \<notin> set objectPrototypeKeys \<Longrightarrow> flagOf (afterToggles fs) f = odd (count_list fs f)"
proof (induction fs rule: rev_induct)
  case Nil
  then show ?case by (simp add: afterToggles_def flagOf_def)
next
  case (snoc g fs)
  then show ?case
    by (auto simp: afterToggles_snoc toggleSecretVisibility_def flagOf_def
             split: option.splits)
qed

lemma lowerUtf8_ascii: "list_all isAscii s \<Longrightarrow> lowerUtf8 s = map lowerChar s"
proof (induction s)
  case Nil
  then show ?case by simp
next
  case (Cons c cs)
  have "c \<noteq> CHR 0xE2"
    using Cons.prems by (auto simp: isAscii_def)
  then show ?case
    using Cons by (simp add: kelvinSign_def)
qed

lemma asciiCaseMap_lowerUtf8: "asciiCaseMap lowerUtf8"
  unfolding asciiCaseMap_def by (simp add: lowerUtf8_ascii)

text \<open>
  Claim C9. A field is secret exactly when its lowercased name contains one of
  \<open>password\<close>, \<open>api_key\<close>, \<open>secret\<close>, \<open>token\<close>, \<open>key\<close>, whatever the platform's
  \<open>toLowerCase\<close> makes of the name. A field that is not secret is always rendered as a
  text input. A secret field is rendered as a password input initially and whenever its
  visibility button has been clicked an even number of times, and as a text input after
  an odd number of clicks; clicks on other fields do not count. (That no secret name is
  the name of an inherited property follows from \<open>toLowerCase\<close> being the ASCII case map
  on ASCII names.)
\<close>

theorem secret_fields_masked:
  "(isSecretField toLowerCase f \<longleftrightarrow>
      (\<exists>secret \<in> set [''password'', ''api_key'', ''secret'', ''token'', ''key''].
         \<exists>pre post. toLowerCase f = pre @ secret @ post)) \<and>
   (\<not> isSecretField toLowerCase f \<longrightarrow> inputType toLowerCase m f = TextInput) \<and>
   (asciiCaseMap toLowerCase \<and> isSecretField toLowerCase f \<longrightarrow>
      inputType toLowerCase (afterToggles fs) f
        = (if even (count_list fs f) then PasswordInput else TextInput))"
proof -
  have "asciiCaseMap toLowerCase \<Longrightarrow> isSecretField toLowerCase f
          \<Longrightarrow> flagOf (afterToggles fs) f = odd (count_list fs f)"
    using inherited_not_secret [of toLowerCase f] flagOf_afterToggles [of f fs] by blast
  then show ?thesis
    using isSecretField_iff [of toLowerCase f] by (auto simp: inputType_def showValue_def)
qed

lemmas eval_form = isSecretField_def secretFields_def lowerChar_def kelvinSign_def
  inputType_def showValue_def afterToggles_def toggleSecretVisibility_def flagOf_def
  objectPrototypeKeys_def

theorem secret_fields_masked_witness:
  "asciiCaseMap lowerUtf8 \<and>
   isSecretField lowerUtf8 ''API_Key'' \<and>
   inputType lowerUtf8 (afterToggles []) ''API_Key'' = PasswordInput \<and>
   inputType lowerUtf8 (afterToggles [''API_Key'']) ''API_Key'' = TextInput \<and>
   inputType lowerUtf8 (afterToggles [''API_Key'', ''API_Key'']) ''API_Key'' = PasswordInput \<and>
   isSecretField lowerUtf8 (kelvinSign @ ''EY'') \<and>
   inputType lowerUtf8 (afterToggles []) (kelvinSign @ ''EY'') = PasswordInput \<and>
   \<not> isSecretField lowerUtf8 ''base_url'' \<and>
   inputType lowerUtf8 (afterToggles []) ''base_url'' = TextInput"
  using secret_fields_masked [of lowerUtf8 "''API_Key''" "afterToggles []" "[]", THEN conjunct2]
    secret_fields_masked [of lowerUtf8 "''API_Key''" "afterToggles []" "[''API_Key'']",
      THEN conjunct2]
    secret_fields_masked [of lowerUtf8 "''API_Key''" "afterToggles []"
      "[''API_Key'', ''API_Key'']", THEN conjunct2]
    secret_fields_masked [of lowerUtf8 "kelvinSign @ ''EY''" "afterToggles []" "[]",
      THEN conjunct2]
    secret_fields_masked [of lowerUtf8 "''base_url''" "afterToggles []" "[]", THEN conjunct2]
    asciiCaseMap_lowerUtf8
  by (simp add: eval_form)


section \<open>Properties of the test panel\<close>

text \<open>
  Claim C10, as stated, fails for a text that is not empty but blank: the single space is
  no JSON text, yet the handler does not parse it; it calls \<open>testAction\<close> with \<open>{}\<close> and
  shows the result, whatever the parser would have said.
\<close>

theorem blank_params_counterexample:
  "testParams blankPanel \<noteq> [] \<and>
   clickRunTest trimUtf8 (\<lambda>t. None) (connectorOf ''c1'' ''enabled'') False (Returns pong)
       blankPanel blankPanel
     = (blankPanel\<lparr>testResult := Some pong\<rparr>, [TestAction ''c1'' ''ping'' (JObject [])])"
  by (simp add: clickRunTest_def runTestDisabled_def handleTest_def blankPanel_def
      connectorOf_def eval_text)

text \<open>
  Claim C10, amended. For every test invocation (a click on the enabled Run Test button,
  which requires a selected action), if the test-parameters text is not empty after
  \<open>trim\<close> and is not valid JSON, the panel reports \<open>Invalid JSON in test parameters\<close>,
  \<open>testAction\<close> is not called, the previous test result is cleared and nothing else
  changes.
\<close>

theorem invalid_json_reported:
  assumes "\<not> runTestDisabled loading r" and "trim (testParams r) \<noteq> []"
    and "JSON_parse (testParams r) = None"
  shows "clickRunTest trim JSON_parse conn loading outcome r s
           = (s\<lparr>panel_error := Some ''Invalid JSON in test parameters'', testResult := None\<rparr>, [])"
  using assms by (simp add: clickRunTest_def runTestDisabled_def handleTest_def)

theorem invalid_json_reported_witness:
  "\<not> runTestDisabled False brokenPanel \<and> trimUtf8 (testParams brokenPanel) \<noteq> [] \<and>
   clickRunTest trimUtf8 (\<lambda>t. None) (connectorOf ''c1'' ''enabled'') False (Returns pong)
       brokenPanel brokenPanel
     = (\<lparr>selectedAction = ''ping'', testParams = ''{oops'', testResult = None,
         panel_error = Some ''Invalid JSON in test parameters''\<rparr>, [])"
proof -
  have h: "\<not> runTestDisabled False brokenPanel" "trimUtf8 (testParams brokenPanel) \<noteq> []"
    by (simp_all add: runTestDisabled_def brokenPanel_def eval_text)
  have p: "(\<lambda>t. None :: json option) (testParams brokenPanel) = None" by simp
  show ?thesis
    using invalid_json_reported [of False brokenPanel trimUtf8 "\<lambda>t. None", OF h p,
        of "connectorOf ''c1'' ''enabled''" "Returns pong" brokenPanel] h
    by (simp add: brokenPanel_def)
qed


section \<open>Properties of the degradation policy\<close>

lemma report_keeps_disabled:
  "\<not> enabled (s c) \<Longrightarrow> \<not> enabled (reportCapabilityFailure th now cap s c)"
  by (auto simp: reportCapabilityFailure_def Let_def)

lemma level_mono:
  assumes "\<And>c. \<not> enabled (s c) \<Longrightarrow> \<not> enabled (s' c)"
  shows "rank (degradationLevel s) \<le> rank (degradationLevel s')"
  using assms [of STT] assms [of TTS] by (auto simp: degradationLevel_def)

lemma report_mono:
  "rank (degradationLevel s) \<le> rank (degradationLevel (reportCapabilityFailure th now cap s))"
  by (rule level_mono) (rule report_keeps_disabled)

lemma reports_mono:
  "rank (degradationLevel s) \<le> rank (degradationLevel (foldl (supervise th) s (reports rs)))"
proof (induction rs arbitrary: s)
  case Nil
  then show ?case by (simp add: reports_def)
next
  case (Cons r rs)
  obtain now cap where r: "r = (now, cap)" by (cases r)
  have "rank (degradationLevel s) \<le> rank (degradationLevel (reportCapabilityFailure th now cap s))"
    by (rule report_mono)
  also have "\<dots> \<le> rank (degradationLevel (foldl (supervise th) (reportCapabilityFailure th now cap s) (reports rs)))"
    by (rule Cons.IH)
  finally show ?case by (simp add: reports_def r)
qed

text \<open>
  Claim C2. A capability-failure report never lowers the degradation level, in the order
  \<open>None < VoiceOnly < Minimal\<close>; neither does any sequence of such reports. Whenever a
  call to the supervisor does lower the level, that call is a successful
  \<open>recheckCapability\<close>.
\<close>

theorem degradation_monotone:
  "rank (degradationLevel s) \<le> rank (degradationLevel (reportCapabilityFailure th now cap s)) \<and>
   rank (degradationLevel s) \<le> rank (degradationLevel (foldl (supervise th) s (reports rs))) \<and>
   (rank (degradationLevel (supervise th s e)) < rank (degradationLevel s)
      \<longrightarrow> (\<exists>c. e = Recheck c True))"
proof -
  have "rank (degradationLevel (supervise th s e)) < rank (degradationLevel s)
      \<Longrightarrow> \<exists>c. e = Recheck c True"
  proof (cases e)
    case (Report t c)
    assume "rank (degradationLevel (supervise th s e)) < rank (degradationLevel s)"
    then show ?thesis using report_mono [of s th t c] Report by simp
  next
    case (Recheck c healthy)
    assume "rank (degradationLevel (supervise th s e)) < rank (degradationLevel s)"
    then show ?thesis using Recheck by (cases healthy) (simp_all add: recheckCapability_def)
  qed
  then show ?thesis using report_mono reports_mono by blast
qed


lemmas eval_sup = ttsFailing_def reports_def initialSupervisor_def reportCapabilityFailure_def
  recheckCapability_def degradationLevel_def Let_def

theorem degradation_monotone_witness:
  "degradationLevel ttsFailing = VoiceOnly TTS \<and>
   degradationLevel (supervise 3 ttsFailing (Report 5 STT)) = VoiceOnly TTS \<and>
   degradationLevel (supervise 3 ttsFailing (Recheck TTS True)) = NoneLevel \<and>
   rank (degradationLevel (supervise 3 ttsFailing (Recheck TTS True)))
     < rank (degradationLevel ttsFailing) \<and>
   (\<exists>c. Recheck TTS True = Recheck c True)"
proof -
  have a: "degradationLevel ttsFailing = VoiceOnly TTS"
    by (simp add: eval_sup)
  have b: "degradationLevel (supervise 3 ttsFailing (Recheck TTS True)) = NoneLevel"
    by (simp add: eval_sup)
  have c: "degradationLevel (supervise 3 ttsFailing (Report 5 STT)) = VoiceOnly TTS"
    by (simp add: eval_sup)
  have d: "rank (degradationLevel (supervise 3 ttsFailing (Recheck TTS True)))
     < rank (degradationLevel ttsFailing)"
    unfolding a b by simp
  have "\<exists>c. Recheck TTS True = Recheck c True"
    using degradation_monotone [of ttsFailing 3 5 STT "[]" "Recheck TTS True"] d by blast
  then show ?thesis
    using a b c d by blast
qed

end
